theory Spec2Isabelle
  imports Main
begin

section \<open>Order store (src/order-service.ts, src/types.ts, src/catalog.ts)\<close>

text \<open>
  A JavaScript \<open>Map\<close> iterates in insertion order, and the matching code depends on that
  order, so a \<open>Map\<close> is an association list: \<open>get\<close> is \<^const>\<open>map_of\<close>, \<open>set\<close> on a
  present key replaces the value where it stands, \<open>set\<close> on a new key appends, \<open>delete\<close>
  removes the key.
\<close>

type_synonym ('k, 'v) js_map = "('k \<times> 'v) list"

fun js_set :: "'k \<Rightarrow> 'v \<Rightarrow> ('k, 'v) js_map \<Rightarrow> ('k, 'v) js_map" where
  "js_set k v [] = [(k, v)]"
| "js_set k v (e # m) = (if fst e = k then (k, v) # m else e # js_set k v m)"

definition js_has :: "('k, 'v) js_map \<Rightarrow> 'k \<Rightarrow> bool" where
  "js_has m k = (map_of m k \<noteq> None)"

definition js_delete :: "'k \<Rightarrow> ('k, 'v) js_map \<Rightarrow> ('k, 'v) js_map" where
  "js_delete k m = filter (\<lambda>e. fst e \<noteq> k) m"

text \<open>
  A JavaScript \<open>number\<close> that reaches \<open>BigInt(...)\<close> is either an integer value or not
  (a fraction, \<open>NaN\<close>, an infinity); \<open>BigInt\<close> raises \<open>RangeError\<close> on the latter.
  \<open>bigint\<close> is \<^typ>\<open>int\<close>.
\<close>

datatype number = Integral int | NonIntegral

datatype js_error = RangeError | NotConnected

fun BigInt :: "number \<Rightarrow> js_error + int" where
  "BigInt (Integral n) = Inr n"
| "BigInt NonIntegral = Inl RangeError"

datatype ProductCategory = T_shirt | Mug | Hoodie | Cap

datatype TShirtSize = S | M | L | XL | XXL

record Product =
  prod_id :: string
  name :: string
  description :: string
  category :: ProductCategory
  price :: int
  sizes :: "TShirtSize list option"
  image_file :: string
  inStock :: bool

datatype OrderStatus = Pending_payment | Paid | Shipped | Delivered

record Order =
  orderId :: string
  unicityId :: string
  productId :: string
  order_size :: "TShirtSize option"
  quantity :: number
  totalPrice :: int
  status :: OrderStatus
  createdAt :: int
  paidAt :: "int option"

record OrderService =
  orders :: "(string, Order) js_map"
  paymentToOrder :: "(string, string) js_map"

text \<open>
  \<open>createOrder\<close>: \<open>uuid\<close> is the value of \<open>randomUUID()\<close> and \<open>now\<close> that of \<open>Date.now()\<close>.
  The function checks nothing; the only failure is the \<open>RangeError\<close> of \<open>BigInt\<close>.
\<close>

definition createOrder ::
  "OrderService \<Rightarrow> string \<Rightarrow> Product \<Rightarrow> number \<Rightarrow> TShirtSize option \<Rightarrow> string \<Rightarrow> int
     \<Rightarrow> js_error + (Order \<times> OrderService)" where
  "createOrder os uid product qty sz uuid now =
     (case BigInt qty of
        Inl e \<Rightarrow> Inl e
      | Inr q \<Rightarrow>
          let oid = take 8 uuid;
              order = \<lparr>orderId = oid, unicityId = uid, productId = prod_id product,
                       order_size = sz, quantity = qty, totalPrice = price product * q,
                       status = Pending_payment, createdAt = now, paidAt = None\<rparr>
          in Inr (order, os\<lparr>orders := js_set oid order (orders os)\<rparr>))"

definition getOrder :: "OrderService \<Rightarrow> string \<Rightarrow> Order option" where
  "getOrder os oid = map_of (orders os) oid"

definition getOrdersByUser :: "OrderService \<Rightarrow> string \<Rightarrow> Order list" where
  "getOrdersByUser os uid = filter (\<lambda>ord. unicityId ord = uid) (map snd (orders os))"

definition linkPaymentToOrder :: "OrderService \<Rightarrow> string \<Rightarrow> string \<Rightarrow> OrderService" where
  "linkPaymentToOrder os eventId oid = os\<lparr>paymentToOrder := js_set eventId oid (paymentToOrder os)\<rparr>"

text \<open>
  \<open>getPendingOrderForPayment\<close> tests \<open>if (orderId)\<close>: an empty string is falsy.
\<close>

definition getPendingOrderForPayment :: "OrderService \<Rightarrow> string \<Rightarrow> Order option" where
  "getPendingOrderForPayment os eventId =
     (case map_of (paymentToOrder os) eventId of
        None \<Rightarrow> None
      | Some oid \<Rightarrow> if oid \<noteq> [] then map_of (orders os) oid else None)"

text \<open>
  \<open>markAsPaid\<close> and \<open>markAsShipped\<close> mutate the order object held by the map, which is an
  update of the value stored under its key. Both return the order (or \<open>undefined\<close>).
\<close>

definition markAsPaid :: "OrderService \<Rightarrow> string \<Rightarrow> int \<Rightarrow> Order option \<times> OrderService" where
  "markAsPaid os oid now =
     (case map_of (orders os) oid of
        None \<Rightarrow> (None, os)
      | Some order \<Rightarrow>
          let order' = order\<lparr>status := Paid, paidAt := Some now\<rparr>
          in (Some order', os\<lparr>orders := js_set oid order' (orders os)\<rparr>))"

definition markAsShipped :: "OrderService \<Rightarrow> string \<Rightarrow> Order option \<times> OrderService" where
  "markAsShipped os oid =
     (case map_of (orders os) oid of
        None \<Rightarrow> (None, os)
      | Some order \<Rightarrow>
          if status order = Paid
          then let order' = order\<lparr>status := Shipped\<rparr>
               in (Some order', os\<lparr>orders := js_set oid order' (orders os)\<rparr>)
          else (Some order, os))"

definition UCT :: int where
  "UCT = 1000000000000000000"

definition tshirt_unicity :: Product where
  "tshirt_unicity = \<lparr>prod_id = ''tshirt-unicity'', name = ''Unicity T-Shirt'',
     description = ''Premium cotton t-shirt with Unicity branding'', category = T_shirt,
     price = 25 * UCT, sizes = Some [S, M, L, XL, XXL], image_file = ''unicity-tshirt1.jpeg'',
     inStock = True\<rparr>"

definition mug_white :: Product where
  "mug_white = \<lparr>prod_id = ''mug-white'', name = ''Unicity White Mug'',
     description = ''Ceramic mug with Unicity logo, 350ml'', category = Mug,
     price = 15 * UCT, sizes = None, image_file = ''unicity_mug1.jpeg'', inStock = True\<rparr>"

definition mug_black :: Product where
  "mug_black = \<lparr>prod_id = ''mug-black'', name = ''Unicity Black Mug'',
     description = ''Black ceramic mug with Unicity branding, 350ml'', category = Mug,
     price = 15 * UCT, sizes = None, image_file = ''unicity_mug2.jpeg'', inStock = True\<rparr>"

definition PRODUCTS :: "(string, Product) js_map" where
  "PRODUCTS = [(''tshirt-unicity'', tshirt_unicity), (''mug-white'', mug_white),
               (''mug-black'', mug_black)]"

definition empty_orders :: OrderService where
  "empty_orders = \<lparr>orders = [], paymentToOrder = []\<rparr>"

section \<open>Payment matching (nostr-service.ts, the version that registers at once)\<close>

text \<open>
  A promise is a cell that is pending (\<open>None\<close>) or settled (\<open>Some b\<close>); the resolving
  function of a promise has an effect only on a pending promise. \<open>PendingPayment.resolve\<close>
  holds either the resolving function of a promise or the closure that
  \<open>waitForExistingPayment\<close> installs, which calls the function it replaced and then the
  resolving function of a new promise.
\<close>

datatype resolver = PromiseResolve nat | Chained resolver nat

record PendingPayment =
  eventId :: string
  pp_unicityId :: string
  userPubkey :: string
  pp_orderId :: string
  amount :: int
  coinId :: string
  pp_createdAt :: int
  resolve :: resolver

text \<open>
  The service. \<open>PendingPayment\<close> objects are shared by reference between the map, a handler
  that is suspended at an \<open>await\<close> and \<open>waitForExistingPayment\<close>, which assigns to the
  \<open>resolve\<close> field of the object: \<open>objects\<close> is the store of all objects created, a reference
  is an index into it, and the map holds references. \<open>client\<close> and \<open>keyManager\<close> say
  whether the fields are non-null. \<open>jobs\<close> is the queue of promise reactions: settling
  a promise does not run the code that awaits it, it queues the notification, and the
  event loop delivers the queue only when the running handler or timer callback has
  returned. \<open>outbox\<close> lists the calls of the relay client's
  \<open>sendPaymentRequest\<close> (recipient key, amount, coin); the message text is only forwarded
  and is left out.
\<close>

record NostrService =
  client :: bool
  keyManager :: bool
  config_coinId :: string
  orderService :: OrderService
  pendingPayments :: "(string, nat) js_map"
  objects :: "PendingPayment list"
  promises :: "bool option list"
  jobs :: "(nat \<times> bool) list"
  outbox :: "(string \<times> int \<times> string) list"

definition new_promise :: "NostrService \<Rightarrow> nat \<times> NostrService" where
  "new_promise st = (length (promises st), st\<lparr>promises := promises st @ [None]\<rparr>)"

definition settle :: "nat \<Rightarrow> bool \<Rightarrow> NostrService \<Rightarrow> NostrService" where
  "settle p b st =
     (if p < length (promises st) \<and> promises st ! p = None
      then st\<lparr>promises := (promises st)[p := Some b], jobs := jobs st @ [(p, b)]\<rparr>
      else st)"

fun call_resolve :: "resolver \<Rightarrow> bool \<Rightarrow> NostrService \<Rightarrow> NostrService" where
  "call_resolve (PromiseResolve p) b st = settle p b st"
| "call_resolve (Chained original q) b st = settle q b (call_resolve original b st)"

text \<open>
  The event loop between two handlers: the waiters of the queued notifications run.
\<close>

definition runMicrotasks :: "NostrService \<Rightarrow> (nat \<times> bool) list \<times> NostrService" where
  "runMicrotasks st = (jobs st, st\<lparr>jobs := []\<rparr>)"

text \<open>What a caller awaiting promise \<open>p\<close> receives: nothing so far, or the boolean.\<close>

definition outcome :: "NostrService \<Rightarrow> nat \<Rightarrow> bool option" where
  "outcome st p = (if p < length (promises st) then promises st ! p else None)"

text \<open>
  An inbound event, as \<open>TokenTransferProtocol\<close> reads it: \<open>isTokenTransfer(event)\<close>,
  \<open>getSender(event)\<close>, \<open>getReplyToEventId(event)\<close>.
\<close>

record TransferEvent =
  isTokenTransfer :: bool
  sender :: string
  replyToEventId :: "string option"

text \<open>
  What the awaited collaborators answer for an event: the text \<open>parseTokenTransfer\<close> returns
  (\<open>None\<close> when it throws), whether \<open>JSON.parse\<close> accepts it, and the boolean of
  \<open>processTokenTransfer\<close>, which catches every error itself.
\<close>

record Processing =
  tokenJson :: "string option"
  jsonParses :: bool
  transferOk :: bool

definition startsWith :: "string \<Rightarrow> string \<Rightarrow> bool" where
  "startsWith s p = (take (length p) s = p)"

fun includes_str :: "string \<Rightarrow> string \<Rightarrow> bool" where
  "includes_str [] sub = (sub = [])"
| "includes_str (c # cs) sub = (startsWith (c # cs) sub \<or> includes_str cs sub)"

text \<open>The loop over the map that looks for the sender's key, in iteration order.\<close>

fun findBySender :: "PendingPayment list \<Rightarrow> (string, nat) js_map \<Rightarrow> string \<Rightarrow> (nat \<times> string) option" where
  "findBySender objs [] s = None"
| "findBySender objs (e # m) s =
     (if userPubkey (objs ! snd e) = s then Some (snd e, fst e) else findBySender objs m s)"

text \<open>
  The matching part of \<open>handleIncomingTransfer\<close>, up to its first \<open>await\<close>. The result
  is the pair \<open>(pending, pendingKey)\<close>, or \<open>None\<close> when the handler returns without a
  match. \<open>if (replyToEventId)\<close> and \<open>!pendingKey\<close> test strings: the empty string is falsy.
\<close>

definition matchPending :: "NostrService \<Rightarrow> TransferEvent \<Rightarrow> (nat \<times> string) option" where
  "matchPending st ev =
     (let byReply =
            (case replyToEventId ev of
               None \<Rightarrow> None
             | Some r \<Rightarrow>
                 if r \<noteq> [] then
                   (case map_of (pendingPayments st) r of
                      None \<Rightarrow> None
                    | Some p \<Rightarrow> Some (p, r))
                 else None);
          found =
            (case byReply of
               Some x \<Rightarrow> Some x
             | None \<Rightarrow> findBySender (objects st) (pendingPayments st) (sender ev))
      in case found of
           None \<Rightarrow> None
         | Some (p, key) \<Rightarrow> if key \<noteq> [] then Some (p, key) else None)"

definition handleIncomingTransfer_match :: "NostrService \<Rightarrow> TransferEvent \<Rightarrow> (nat \<times> string) option" where
  "handleIncomingTransfer_match st ev =
     (if \<not> keyManager st then None
      else if \<not> isTokenTransfer ev then None
      else matchPending st ev)"

definition delete_pending :: "string \<Rightarrow> NostrService \<Rightarrow> NostrService" where
  "delete_pending key st = st\<lparr>pendingPayments := js_delete key (pendingPayments st)\<rparr>"

definition resolve_pending :: "nat \<Rightarrow> bool \<Rightarrow> NostrService \<Rightarrow> NostrService" where
  "resolve_pending p b st = call_resolve (resolve (objects st ! p)) b st"

text \<open>
  The rest of \<open>handleIncomingTransfer\<close>, which runs when the awaited calls have answered,
  in the state the service has by then. A throwing \<open>parseTokenTransfer\<close> is caught by the
  outer \<open>catch\<close>, which only logs. \<open>now\<close> is \<open>Date.now()\<close> inside \<open>markAsPaid\<close>.
\<close>

definition handleIncomingTransfer_settle ::
  "NostrService \<Rightarrow> nat \<times> string \<Rightarrow> Processing \<Rightarrow> int \<Rightarrow> NostrService" where
  "handleIncomingTransfer_settle st m pr now =
     (case m of (p, key) \<Rightarrow>
        (case tokenJson pr of
           None \<Rightarrow> st
         | Some js \<Rightarrow>
             if \<not> startsWith js ''{'' \<or> \<not> includes_str js ''sourceToken''
             then delete_pending key (resolve_pending p False st)
             else if \<not> jsonParses pr
             then delete_pending key (resolve_pending p False st)
             else if transferOk pr
             then let st1 = st\<lparr>orderService :=
                              snd (markAsPaid (orderService st) (pp_orderId (objects st ! p)) now)\<rparr>
                  in delete_pending key (resolve_pending p True st1)
             else delete_pending key (resolve_pending p False st)))"

text \<open>The handler when nothing else runs between its two parts.\<close>

definition handleIncomingTransfer ::
  "NostrService \<Rightarrow> TransferEvent \<Rightarrow> Processing \<Rightarrow> int \<Rightarrow> NostrService" where
  "handleIncomingTransfer st ev pr now =
     (case handleIncomingTransfer_match st ev of
        None \<Rightarrow> st
      | Some m \<Rightarrow> handleIncomingTransfer_settle st m pr now)"

text \<open>
  \<open>sendPaymentRequest\<close>. \<open>evId\<close> is the event id the relay client returns and \<open>now\<close> is
  \<open>Date.now()\<close>; the state is the one in which the function resumes after the awaited
  send, and what follows the send runs without a further \<open>await\<close>. The result carries
  the event id, the promise that \<open>waitForPayment()\<close> follows, and the timer: the pair of
  values its callback closes over. \<open>waitForPayment\<close> clears the timer once the promise
  has settled, when the entry has been deleted and the callback would do nothing; that is
  left out.
\<close>

record PaymentHandle =
  h_eventId :: string
  waitForPayment :: nat
  timeoutId :: "string \<times> nat"

definition sendPaymentRequest ::
  "NostrService \<Rightarrow> string \<Rightarrow> string \<Rightarrow> string \<Rightarrow> int \<Rightarrow> string \<Rightarrow> int
     \<Rightarrow> js_error + (PaymentHandle \<times> NostrService)" where
  "sendPaymentRequest st uid pubkey oid amt evId now =
     (if \<not> client st then Inl NotConnected
      else
        let st1 = st\<lparr>outbox := outbox st @ [(pubkey, amt, config_coinId st)]\<rparr>;
            st2 = st1\<lparr>orderService := linkPaymentToOrder (orderService st1) evId oid\<rparr>;
            pr = new_promise st2;
            pending = \<lparr>eventId = evId, pp_unicityId = uid, userPubkey = pubkey,
                        pp_orderId = oid, amount = amt, coinId = config_coinId st,
                        pp_createdAt = now, resolve = PromiseResolve (fst pr)\<rparr>;
            st3 = snd pr;
            st4 = st3\<lparr>objects := objects st3 @ [pending],
                       pendingPayments := js_set evId (length (objects st3)) (pendingPayments st3)\<rparr>
        in Inr (\<lparr>h_eventId = evId, waitForPayment = fst pr, timeoutId = (evId, fst pr)\<rparr>, st4))"

text \<open>The callback of the timer that \<open>sendPaymentRequest\<close> arms.\<close>

definition timeoutFires :: "NostrService \<Rightarrow> string \<times> nat \<Rightarrow> NostrService" where
  "timeoutFires st t =
     (case t of (evId, p) \<Rightarrow>
        if js_has (pendingPayments st) evId
        then settle p False (delete_pending evId st)
        else st)"



definition waitForExistingPayment :: "NostrService \<Rightarrow> string \<Rightarrow> nat option \<times> NostrService" where
  "waitForExistingPayment st evId =
     (case map_of (pendingPayments st) evId of
        None \<Rightarrow> (None, st)
      | Some r \<Rightarrow>
          let pr = new_promise st;
              st1 = snd pr;
              pending = objects st1 ! r;
              pending' = pending\<lparr>resolve := Chained (resolve pending) (fst pr)\<rparr>
          in (Some (fst pr), st1\<lparr>objects := (objects st1)[r := pending']\<rparr>))"

definition service0 :: NostrService where
  "service0 = \<lparr>client = True, keyManager = True, config_coinId = ''coin'',
     orderService = empty_orders, pendingPayments = [], objects = [], promises = [],
     jobs = [], outbox = []\<rparr>"

section \<open>The earlier nostr-service.ts, which registers inside \<open>waitForPayment\<close>\<close>

text \<open>
  Its \<open>handleIncomingTransfer\<close> has the statements of the later one without the log
  lines, so the definitions above stand for both. Its \<open>sendPaymentRequest\<close> sends and
  links only; the object is created, stored and given its timer each time the returned
  \<open>waitForPayment\<close> closure is called. The closure is the record of the values it
  captures.
\<close>

record WaitClosure =
  w_eventId :: string
  w_unicityId :: string
  w_userPubkey :: string
  w_orderId :: string
  w_amount :: int

definition sendPaymentRequest2 ::
  "NostrService \<Rightarrow> string \<Rightarrow> string \<Rightarrow> string \<Rightarrow> int \<Rightarrow> string
     \<Rightarrow> js_error + (WaitClosure \<times> NostrService)" where
  "sendPaymentRequest2 st uid pubkey oid amt evId =
     (if \<not> client st then Inl NotConnected
      else
        let st1 = st\<lparr>outbox := outbox st @ [(pubkey, amt, config_coinId st)]\<rparr>;
            st2 = st1\<lparr>orderService := linkPaymentToOrder (orderService st1) evId oid\<rparr>
        in Inr (\<lparr>w_eventId = evId, w_unicityId = uid, w_userPubkey = pubkey,
                   w_orderId = oid, w_amount = amt\<rparr>, st2))"

text \<open>
  A call of the closure: the result is the promise returned and the timer armed.
\<close>

definition waitForPayment2 ::
  "NostrService \<Rightarrow> WaitClosure \<Rightarrow> int \<Rightarrow> (nat \<times> (string \<times> nat)) \<times> NostrService" where
  "waitForPayment2 st w now =
     (let pr = new_promise st;
          pending = \<lparr>eventId = w_eventId w, pp_unicityId = w_unicityId w,
                      userPubkey = w_userPubkey w, pp_orderId = w_orderId w,
                      amount = w_amount w, coinId = config_coinId st,
                      pp_createdAt = now, resolve = PromiseResolve (fst pr)\<rparr>;
          st3 = snd pr;
          st4 = st3\<lparr>objects := objects st3 @ [pending],
                     pendingPayments :=
                       js_set (w_eventId w) (length (objects st3)) (pendingPayments st3)\<rparr>
      in ((fst pr, (w_eventId w, fst pr)), st4))"

section \<open>The tools \<open>place_order\<close> and \<open>confirm_order\<close> (index.ts)\<close>

text \<open>
  \<open>cleanUnicityId\<close>: \<open>replace\<close> with a string pattern replaces the first occurrence;
  \<open>trim\<close> strips white space and line terminators. A string is the list of its code
  units, which a \<open>char\<close> holds up to 255: of the characters that \<open>trim\<close> strips these are
  tab, line feed, vertical tab, form feed, carriage return, space and no-break space.
\<close>

fun replace_first :: "string \<Rightarrow> string \<Rightarrow> string \<Rightarrow> string" where
  "replace_first pat rep [] = (if pat = [] then rep else [])"
| "replace_first pat rep (c # cs) =
     (if startsWith (c # cs) pat then rep @ drop (length pat) (c # cs)
      else c # replace_first pat rep cs)"

definition is_space :: "char \<Rightarrow> bool" where
  "is_space c = (c \<in> set [CHR 0x09, CHR 0x0A, CHR 0x0B, CHR 0x0C, CHR 0x0D, CHR 0x20, CHR 0xA0])"

definition trim :: "string \<Rightarrow> string" where
  "trim s = rev (dropWhile is_space (rev (dropWhile is_space s)))"

definition cleanUnicityId :: "string \<Rightarrow> string" where
  "cleanUnicityId s = trim (replace_first ''@'' [] (replace_first ''@unicity'' [] s))"

text \<open>
  The arguments of \<open>place_order\<close> as the client sends them, and the tool's schema
  (\<open>quantity\<close>: an integer from 1 to 10, 1 when absent; \<open>size\<close>: optional, one of the five
  names). The server runs the handler only on arguments the schema accepts.
\<close>

record PlaceOrderInput =
  unicity_id :: string
  product_id :: string
  in_quantity :: "number option"
  in_size :: "string option"

definition size_enum :: "(string \<times> TShirtSize) list" where
  "size_enum = [(''S'', S), (''M'', M), (''L'', L), (''XL'', XL), (''XXL'', XXL)]"

definition place_order_schema :: "PlaceOrderInput \<Rightarrow> (number \<times> TShirtSize option) option" where
  "place_order_schema inp =
     (case (case in_quantity inp of
              None \<Rightarrow> Some (Integral 1)
            | Some NonIntegral \<Rightarrow> None
            | Some (Integral n) \<Rightarrow> if 1 \<le> n \<and> n \<le> 10 then Some (Integral n) else None) of
        None \<Rightarrow> None
      | Some q \<Rightarrow>
          (case in_size inp of
             None \<Rightarrow> Some (q, None)
           | Some s \<Rightarrow>
               (case map_of size_enum s of
                  None \<Rightarrow> None
                | Some z \<Rightarrow> Some (q, Some z))))"

text \<open>
  \<open>PRODUCTS[product_id]\<close> reads a property of an object literal: besides the three
  products it finds what the object inherits from \<open>Object.prototype\<close>, which is a function
  or an object, so truthy, and has no \<open>inStock\<close>.
\<close>

definition inherited_keys :: "string list" where
  "inherited_keys = [''constructor'', ''__proto__'', ''toString'', ''toLocaleString'',
     ''valueOf'', ''hasOwnProperty'', ''isPrototypeOf'', ''propertyIsEnumerable'',
     ''__defineGetter__'', ''__defineSetter__'', ''__lookupGetter__'', ''__lookupSetter__'']"

datatype PlaceOrderResult =
    InvalidParams
  | UnicityIdNotFound
  | ProductNotFound
  | OutOfStock
  | SizeRequired
  | SizeNotAvailable
  | PaymentRequired Order string
  | HandlerThrew js_error

text \<open>
  The handler of \<open>place_order\<close>. \<open>pubkey\<close> is what \<open>resolvePubkey\<close> answers (\<open>null\<close> is
  \<open>None\<close>; the empty string is falsy too), \<open>uuid\<close> and \<open>now\<close> go to \<open>createOrder\<close>,
  \<open>evId\<close> and \<open>now'\<close> to \<open>sendPaymentRequest\<close>. For an inherited key the handler goes on
  with the inherited value and answers out of stock, \<open>!product.inStock\<close> being true of
  it. Every result but \<open>PaymentRequired\<close> is an error reply or a thrown error.
\<close>

definition place_order ::
  "NostrService \<Rightarrow> PlaceOrderInput \<Rightarrow> string option \<Rightarrow> string \<Rightarrow> int \<Rightarrow> string \<Rightarrow> int
     \<Rightarrow> PlaceOrderResult \<times> NostrService" where
  "place_order st inp pubkey uuid now evId now' =
     (case place_order_schema inp of
        None \<Rightarrow> (InvalidParams, st)
      | Some (qty, sz) \<Rightarrow>
          let uid = cleanUnicityId (unicity_id inp) in
          (case pubkey of
             None \<Rightarrow> (UnicityIdNotFound, st)
           | Some pk \<Rightarrow>
               if pk = [] then (UnicityIdNotFound, st)
               else
                 (case map_of PRODUCTS (product_id inp) of
                    None \<Rightarrow>
                      if product_id inp \<in> set inherited_keys then (OutOfStock, st)
                      else (ProductNotFound, st)
                  | Some product \<Rightarrow>
                      if \<not> inStock product then (OutOfStock, st)
                      else if sizes product \<noteq> None \<and> sz = None then (SizeRequired, st)
                      else if (case sizes product of
                                 None \<Rightarrow> False
                               | Some ss \<Rightarrow>
                                   (case sz of None \<Rightarrow> False | Some z \<Rightarrow> z \<notin> set ss))
                      then (SizeNotAvailable, st)
                      else
                        (case createOrder (orderService st) uid product qty sz uuid now of
                           Inl e \<Rightarrow> (HandlerThrew e, st)
                         | Inr (order, os') \<Rightarrow>
                             let st1 = st\<lparr>orderService := os'\<rparr> in
                             (case sendPaymentRequest st1 uid pk (orderId order)
                                     (totalPrice order) evId now' of
                                Inl e \<Rightarrow> (HandlerThrew e, st1)
                              | Inr (h, st2) \<Rightarrow> (PaymentRequired order (h_eventId h), st2))))))"



text \<open>The reply once the awaited promise has settled.\<close>

definition confirm_order_reply :: "bool \<Rightarrow> string" where
  "confirm_order_reply paymentReceived = (if paymentReceived then ''paid'' else ''payment_timeout'')"

section \<open>Runs of the service\<close>

text \<open>
  What happens to the service between its construction and an inbound event, one job of
  the event loop after the other: a registration (\<open>sendPaymentRequest\<close>; an attempt that
  throws changes nothing), a timer callback, the second part of a handler with whatever
  entry it holds, a late waiter. \<open>fresh_ids\<close> says that every registration of the run gets
  from the relay an event id that is not empty and not a key of the map at that moment;
  \<open>clock_monotone\<close> that \<open>Date.now()\<close> at a registration is not before the creation times
  of the objects that exist. \<open>map_ordered\<close>: along the iteration order of the map the
  references increase, point into the store, and the keys are not empty.
\<close>

datatype action =
    Register string string string int string int
  | TimerFires "string \<times> nat"
  | HandlerResumes "nat \<times> string" Processing int
  | WaitExisting string

fun step :: "NostrService \<Rightarrow> action \<Rightarrow> NostrService" where
  "step st (Register uid pubkey oid amt evId now) =
     (case sendPaymentRequest st uid pubkey oid amt evId now of
        Inl e \<Rightarrow> st
      | Inr r \<Rightarrow> snd r)"
| "step st (TimerFires t) = timeoutFires st t"
| "step st (HandlerResumes m pr now) = handleIncomingTransfer_settle st m pr now"
| "step st (WaitExisting evId) = snd (waitForExistingPayment st evId)"

fun run :: "NostrService \<Rightarrow> action list \<Rightarrow> NostrService" where
  "run st [] = st"
| "run st (a # as) = run (step st a) as"

fun fresh_id :: "NostrService \<Rightarrow> action \<Rightarrow> bool" where
  "fresh_id st (Register uid pubkey oid amt evId now) =
     (evId \<noteq> [] \<and> map_of (pendingPayments st) evId = None)"
| "fresh_id st a = True"

fun fresh_ids :: "NostrService \<Rightarrow> action list \<Rightarrow> bool" where
  "fresh_ids st [] = True"
| "fresh_ids st (a # as) = (fresh_id st a \<and> fresh_ids (step st a) as)"

fun on_time :: "NostrService \<Rightarrow> action \<Rightarrow> bool" where
  "on_time st (Register uid pubkey oid amt evId now) =
     list_all (\<lambda>p. pp_createdAt p \<le> now) (objects st)"
| "on_time st a = True"

fun clock_monotone :: "NostrService \<Rightarrow> action list \<Rightarrow> bool" where
  "clock_monotone st [] = True"
| "clock_monotone st (a # as) = (on_time st a \<and> clock_monotone (step st a) as)"

definition map_ordered :: "NostrService \<Rightarrow> bool" where
  "map_ordered st \<longleftrightarrow>
     sorted_wrt (\<lambda>a b. snd a < snd b) (pendingPayments st)
     \<and> (\<forall>e \<in> set (pendingPayments st). snd e < length (objects st) \<and> fst e \<noteq> [])"

section \<open>A run of the shop, used to evaluate the definitions\<close>

text \<open>
  Alice orders two white mugs (\<open>place_order\<close>), then calls \<open>confirm_order\<close> for the
  order; three transfer events from her key; the answers of the collaborators for a
  well-formed transfer.
\<close>

definition alice_mug :: PlaceOrderInput where
  "alice_mug = \<lparr>unicity_id = ''@alice'', product_id = ''mug-white'',
     in_quantity = Some (Integral 2), in_size = None\<rparr>"

definition order1 :: Order where
  "order1 = \<lparr>orderId = ''0a1b2c3d'', unicityId = ''alice'', productId = ''mug-white'',
     order_size = None, quantity = Integral 2, totalPrice = 30000000000000000000,
     status = Pending_payment, createdAt = 1000, paidAt = None\<rparr>"

definition pending1 :: PendingPayment where
  "pending1 = \<lparr>eventId = ''e1'', pp_unicityId = ''alice'', userPubkey = ''pkA'',
     pp_orderId = ''0a1b2c3d'', amount = 30000000000000000000, coinId = ''coin'',
     pp_createdAt = 1001, resolve = PromiseResolve 0\<rparr>"

definition pending2 :: PendingPayment where
  "pending2 = \<lparr>eventId = ''e2'', pp_unicityId = ''alice'', userPubkey = ''pkA'',
     pp_orderId = ''0a1b2c3d'', amount = 30000000000000000000, coinId = ''coin'',
     pp_createdAt = 2000, resolve = PromiseResolve 1\<rparr>"

definition placed :: NostrService where
  "placed = \<lparr>client = True, keyManager = True, config_coinId = ''coin'',
     orderService = \<lparr>orders = [(''0a1b2c3d'', order1)],
                       paymentToOrder = [(''e1'', ''0a1b2c3d'')]\<rparr>,
     pendingPayments = [(''e1'', 0)], objects = [pending1], promises = [None], jobs = [],
     outbox = [(''pkA'', 30000000000000000000, ''coin'')]\<rparr>"

definition confirmed :: NostrService where
  "confirmed = \<lparr>client = True, keyManager = True, config_coinId = ''coin'',
     orderService = \<lparr>orders = [(''0a1b2c3d'', order1)],
                       paymentToOrder = [(''e1'', ''0a1b2c3d''), (''e2'', ''0a1b2c3d'')]\<rparr>,
     pendingPayments = [(''e1'', 0), (''e2'', 1)], objects = [pending1, pending2],
     promises = [None, None], jobs = [],
     outbox = [(''pkA'', 30000000000000000000, ''coin''),
               (''pkA'', 30000000000000000000, ''coin'')]\<rparr>"

definition transfer_reply_e2 :: TransferEvent where
  "transfer_reply_e2 = \<lparr>isTokenTransfer = True, sender = ''pkA'', replyToEventId = Some ''e2''\<rparr>"

definition transfer_reply_e1 :: TransferEvent where
  "transfer_reply_e1 = \<lparr>isTokenTransfer = True, sender = ''pkA'', replyToEventId = Some ''e1''\<rparr>"

definition transfer_no_reply :: TransferEvent where
  "transfer_no_reply = \<lparr>isTokenTransfer = True, sender = ''pkA'', replyToEventId = None\<rparr>"

definition good_transfer :: Processing where
  "good_transfer = \<lparr>tokenJson = Some ''{sourceToken:1}'', jsonParses = True, transferOk = True\<rparr>"

text \<open>
  A second waiter attaches to the entry of the first request; then the timer of that
  request fires; then a handler that had matched the entry before the timer fired runs its
  second part.
\<close>

definition pending1_late :: PendingPayment where
  "pending1_late = pending1\<lparr>resolve := Chained (PromiseResolve 0) 1\<rparr>"

definition late_waiter :: NostrService where
  "late_waiter = snd (waitForExistingPayment placed ''e1'')"

definition expired_late :: NostrService where
  "expired_late = timeoutFires late_waiter (''e1'', 0)"

definition settled_late :: NostrService where
  "settled_late = handleIncomingTransfer_settle expired_late (0, ''e1'') good_transfer 3000"

text \<open>The order of the run is paid, shipped, and then marked as paid once more.\<close>

definition store_paid :: OrderService where
  "store_paid = snd (markAsPaid (orderService placed) ''0a1b2c3d'' 2000)"

definition store_shipped :: OrderService where
  "store_shipped = snd (markAsShipped store_paid ''0a1b2c3d'')"

definition store_repaid :: OrderService where
  "store_repaid = snd (markAsPaid store_shipped ''0a1b2c3d'' 3000)"

text \<open>Inputs that \<open>createOrder\<close> and \<open>place_order\<close> are tried on.\<close>

definition zero_order :: Order where
  "zero_order = \<lparr>orderId = ''9f8e7d6c'', unicityId = ''alice'', productId = ''mug-white'',
     order_size = Some XL, quantity = Integral 0, totalPrice = 0,
     status = Pending_payment, createdAt = 1000, paidAt = None\<rparr>"

definition mug_with_size :: PlaceOrderInput where
  "mug_with_size = \<lparr>unicity_id = ''@alice'', product_id = ''mug-white'',
     in_quantity = None, in_size = Some ''M''\<rparr>"

definition sized_mug_order :: Order where
  "sized_mug_order = \<lparr>orderId = ''0a1b2c3d'', unicityId = ''alice'', productId = ''mug-white'',
     order_size = Some M, quantity = Integral 1, totalPrice = 15000000000000000000,
     status = Pending_payment, createdAt = 1000, paidAt = None\<rparr>"

definition eleven_shirts :: PlaceOrderInput where
  "eleven_shirts = \<lparr>unicity_id = ''@alice'', product_id = ''tshirt-unicity'',
     in_quantity = Some (Integral 11), in_size = Some ''L''\<rparr>"

text \<open>
  The same request in the two versions of the service: \<open>ordered\<close> holds the order and no
  request; the later version's \<open>sendPaymentRequest\<close> leads to \<open>placed\<close>, the earlier
  version's to \<open>sent2\<close> and the closure \<open>closure2\<close>. \<open>paid1\<close> is \<open>placed\<close> after a transfer
  that replies to the request; \<open>waiting2\<close> is \<open>sent2\<close> after the closure has been called.
\<close>

definition ordered :: NostrService where
  "ordered = service0\<lparr>orderService := \<lparr>orders = [(''0a1b2c3d'', order1)], paymentToOrder = []\<rparr>\<rparr>"

definition closure2 :: WaitClosure where
  "closure2 = \<lparr>w_eventId = ''e1'', w_unicityId = ''alice'', w_userPubkey = ''pkA'',
     w_orderId = ''0a1b2c3d'', w_amount = 30000000000000000000\<rparr>"

definition sent2 :: NostrService where
  "sent2 = placed\<lparr>pendingPayments := [], objects := [], promises := []\<rparr>"

definition waiting2 :: NostrService where
  "waiting2 = snd (waitForPayment2 sent2 closure2 3500)"

definition paid1 :: NostrService where
  "paid1 = handleIncomingTransfer placed transfer_reply_e1 good_transfer 3000"

text \<open>
  Three registrations for the same key, the timer of the first firing before the third.
\<close>

definition pending3 :: PendingPayment where
  "pending3 = \<lparr>eventId = ''e3'', pp_unicityId = ''alice'', userPubkey = ''pkA'',
     pp_orderId = ''0a1b2c3d'', amount = 30000000000000000000, coinId = ''coin'',
     pp_createdAt = 2500, resolve = PromiseResolve 2\<rparr>"

definition busy_run :: "action list" where
  "busy_run =
     [Register ''alice'' ''pkA'' ''0a1b2c3d'' 30000000000000000000 ''e1'' 1001,
      Register ''alice'' ''pkA'' ''0a1b2c3d'' 30000000000000000000 ''e2'' 2000,
      TimerFires (''e1'', 0),
      Register ''alice'' ''pkA'' ''0a1b2c3d'' 30000000000000000000 ''e3'' 2500]"

section \<open>Facts about the map operations\<close>

lemma map_of_js_set: "map_of (js_set k v m) k' = (if k' = k then Some v else map_of m k')"
  by (induction m) auto

lemma map_of_js_delete: "map_of (js_delete k m) k' = (if k' = k then None else map_of m k')"
  unfolding js_delete_def by (induction m) auto

lemma js_set_fresh: "map_of m k = None \<Longrightarrow> js_set k v m = m @ [(k, v)]"
  by (induction m) (auto split: if_splits)

section \<open>Order store: total price\<close>

text \<open>
  C9. For every price and every integer quantity, \<open>createOrder\<close> returns an order whose
  \<open>totalPrice\<close> is exactly \<open>price * quantity\<close> over the unbounded integers, and that order is
  the one stored under its \<open>orderId\<close>.
\<close>

theorem createOrder_totalPrice:
  "\<exists>ord os'. createOrder os uid p (Integral q) sz uuid now = Inr (ord, os')
      \<and> totalPrice ord = price p * q
      \<and> getOrder os' (orderId ord) = Some ord"
  by (simp add: createOrder_def getOrder_def Let_def map_of_js_set)

theorem createOrder_totalPrice_witness:
  "\<exists>ord os'. createOrder empty_orders ''alice'' tshirt_unicity (Integral 2) (Some L)
        ''0a1b2c3d-0000'' 1700000000000 = Inr (ord, os')
      \<and> totalPrice ord = 50000000000000000000
      \<and> getOrder os' (orderId ord) = Some ord"
  using createOrder_totalPrice [of empty_orders "''alice''" tshirt_unicity 2 "Some L"
      "''0a1b2c3d-0000''" 1700000000000]
  by (simp add: tshirt_unicity_def UCT_def)

section \<open>Order store: lifecycle\<close>

text \<open>
  What the two transitions do to the status of a stored order: \<open>markAsShipped\<close> moves
  \<open>paid\<close> to \<open>shipped\<close> and leaves every other status alone; \<open>markAsPaid\<close> sets \<open>paid\<close>
  whatever the status was.
\<close>

lemma markAsShipped_status:
  "getOrder os oid = Some ord \<Longrightarrow>
     map_option status (getOrder (snd (markAsShipped os oid)) oid)
       = Some (if status ord = Paid then Shipped else status ord)"
  by (simp add: markAsShipped_def getOrder_def Let_def map_of_js_set)

lemma markAsPaid_status:
  "getOrder os oid = Some ord \<Longrightarrow>
     map_option status (getOrder (snd (markAsPaid os oid now)) oid) = Some Paid"
  by (simp add: markAsPaid_def getOrder_def Let_def map_of_js_set)

text \<open>
  C2. The claim is that a call out of sequence leaves the status unchanged. Evaluated on
  the order of the run: after \<open>markAsPaid\<close> and \<open>markAsShipped\<close> the order is \<open>shipped\<close>;
  a further \<open>markAsPaid\<close> returns it to \<open>paid\<close> and stamps \<open>paidAt\<close> anew.
\<close>

theorem markAsPaid_moves_shipped_order_back:
  "map_option status (getOrder (orderService placed) ''0a1b2c3d'') = Some Pending_payment
   \<and> map_option status (getOrder store_paid ''0a1b2c3d'') = Some Paid
   \<and> map_option status (getOrder store_shipped ''0a1b2c3d'') = Some Shipped
   \<and> map_option status (getOrder store_repaid ''0a1b2c3d'') = Some Paid
   \<and> map_option paidAt (getOrder store_shipped ''0a1b2c3d'') = Some (Some 2000)
   \<and> map_option paidAt (getOrder store_repaid ''0a1b2c3d'') = Some (Some 3000)"
  by (simp add: store_repaid_def store_shipped_def store_paid_def placed_def order1_def
      markAsPaid_def markAsShipped_def getOrder_def Let_def)

theorem markAsPaid_moves_shipped_order_back_witness:
  "map_option status (getOrder store_repaid ''0a1b2c3d'') \<noteq> Some Shipped"
proof -
  have "map_option status (getOrder store_repaid ''0a1b2c3d'') = Some Paid"
    using markAsPaid_moves_shipped_order_back by blast
  then show ?thesis by auto
qed

section \<open>Facts about the service\<close>

lemma findBySender_None:
  "findBySender objs m s = None \<longleftrightarrow> (\<forall>e \<in> set m. userPubkey (objs ! snd e) \<noteq> s)"
  by (induction m) auto

lemma findBySender_key: "findBySender objs m s = Some (q, key) \<Longrightarrow> (key, q) \<in> set m"
  by (induction m) (auto split: if_splits)

lemma findBySender_first:
  "i < length m \<Longrightarrow> userPubkey (objs ! snd (m ! i)) = s
     \<Longrightarrow> \<forall>j<i. userPubkey (objs ! snd (m ! j)) \<noteq> s
     \<Longrightarrow> findBySender objs m s = Some (snd (m ! i), fst (m ! i))"
proof (induction m arbitrary: i)
  case Nil
  then show ?case by simp
next
  case (Cons e m)
  show ?case
  proof (cases i)
    case 0
    with Cons.prems show ?thesis by simp
  next
    case (Suc k)
    with Cons.prems have "userPubkey (objs ! snd e) \<noteq> s" by auto
    moreover have "findBySender objs m s = Some (snd (m ! k), fst (m ! k))"
    proof (rule Cons.IH)
      show "k < length m" using Cons.prems Suc by simp
      show "userPubkey (objs ! snd (m ! k)) = s" using Cons.prems Suc by simp
      show "\<forall>j<k. userPubkey (objs ! snd (m ! j)) \<noteq> s"
      proof (intro allI impI)
        fix j assume "j < k"
        then have "Suc j < i" using Suc by simp
        with Cons.prems(3) have "userPubkey (objs ! snd ((e # m) ! Suc j)) \<noteq> s" by blast
        then show "userPubkey (objs ! snd (m ! j)) \<noteq> s" by simp
      qed
    qed
    ultimately show ?thesis using Suc by simp
  qed
qed

lemma settle_fields [simp]:
  "pendingPayments (settle p b st) = pendingPayments st"
  "objects (settle p b st) = objects st"
  "orderService (settle p b st) = orderService st"
  "keyManager (settle p b st) = keyManager st"
  "client (settle p b st) = client st"
  "outbox (settle p b st) = outbox st"
  by (simp_all add: settle_def)

lemma call_resolve_fields [simp]:
  "pendingPayments (call_resolve r b st) = pendingPayments st"
  "objects (call_resolve r b st) = objects st"
  "orderService (call_resolve r b st) = orderService st"
  "keyManager (call_resolve r b st) = keyManager st"
  "client (call_resolve r b st) = client st"
  "outbox (call_resolve r b st) = outbox st"
  by (induction r arbitrary: st) simp_all

lemma delete_pending_fields [simp]:
  "promises (delete_pending k st) = promises st"
  "objects (delete_pending k st) = objects st"
  "orderService (delete_pending k st) = orderService st"
  "keyManager (delete_pending k st) = keyManager st"
  "jobs (delete_pending k st) = jobs st"
  "pendingPayments (delete_pending k st) = js_delete k (pendingPayments st)"
  by (simp_all add: delete_pending_def)

lemma settle_jobs: "\<exists>new. jobs (settle p b st) = jobs st @ new"
  by (simp add: settle_def)

lemma settle_unsettled:
  "p < length (promises st) \<Longrightarrow> promises st ! p = None \<Longrightarrow>
     outcome (settle p b st) p = Some b \<and> (p, b) \<in> set (jobs (settle p b st))"
  by (simp add: settle_def outcome_def)

lemma settle_first_wins:
  "p < length (promises st) \<Longrightarrow> promises st ! p = None \<Longrightarrow>
     settle p b' (settle p b st) = settle p b st"
  by (simp add: settle_def)

lemma call_resolve_jobs: "\<exists>new. jobs (call_resolve r b st) = jobs st @ new"
proof (induction r arbitrary: st)
  case (PromiseResolve p)
  then show ?case by (simp add: settle_jobs)
next
  case (Chained r q)
  obtain n1 where n1: "jobs (call_resolve r b st) = jobs st @ n1" using Chained by blast
  obtain n2 where "jobs (settle q b (call_resolve r b st)) = jobs (call_resolve r b st) @ n2"
    using settle_jobs by blast
  with n1 show ?case by simp
qed

lemma resolve_pending_jobs: "\<exists>new. jobs (resolve_pending p b st) = jobs st @ new"
  unfolding resolve_pending_def by (rule call_resolve_jobs)

lemma no_match_for_absent_key:
  assumes "map_of (pendingPayments st) key = None"
  shows "handleIncomingTransfer_match st ev \<noteq> Some (q, key)"
proof
  assume m: "handleIncomingTransfer_match st ev = Some (q, key)"
  have nk: "key \<notin> fst ` set (pendingPayments st)"
    using assms by (simp add: map_of_eq_None_iff)
  from m have "matchPending st ev = Some (q, key)"
    by (simp add: handleIncomingTransfer_match_def split: if_splits)
  then have "findBySender (objects st) (pendingPayments st) (sender ev) = Some (q, key)"
    using assms
    by (auto simp: matchPending_def Let_def split: option.splits if_splits)
  then have "(key, q) \<in> set (pendingPayments st)" by (rule findBySender_key)
  then show False using nk by force
qed

lemma match_cong:
  "keyManager a = keyManager b \<Longrightarrow> pendingPayments a = pendingPayments b
     \<Longrightarrow> objects a = objects b
     \<Longrightarrow> handleIncomingTransfer_match a ev = handleIncomingTransfer_match b ev"
  unfolding handleIncomingTransfer_match_def matchPending_def
  by (simp cong: option.case_cong if_cong)

lemma settle_step_pending:
  "tokenJson pr \<noteq> None \<Longrightarrow>
   pendingPayments (handleIncomingTransfer_settle st (p, key) pr now)
     = js_delete key (pendingPayments st)"
  by (auto simp: handleIncomingTransfer_settle_def resolve_pending_def Let_def)

lemma settle_step_jobs:
  "\<exists>new. jobs (handleIncomingTransfer_settle st (p, key) pr now) = jobs st @ new
      \<and> (new \<noteq> [] \<longrightarrow> tokenJson pr \<noteq> None)"
proof (cases "tokenJson pr")
  case None
  then show ?thesis by (simp add: handleIncomingTransfer_settle_def)
next
  case (Some js)
  define st1 where "st1 = st\<lparr>orderService :=
      snd (markAsPaid (orderService st) (pp_orderId (objects st ! p)) now)\<rparr>"
  have j1: "jobs st1 = jobs st" by (simp add: st1_def)
  obtain n1 where n1: "jobs (resolve_pending p True st1) = jobs st @ n1"
    using resolve_pending_jobs [of p True st1] j1 by auto
  obtain n2 where n2: "jobs (resolve_pending p False st) = jobs st @ n2"
    using resolve_pending_jobs [of p False st] by auto
  have "\<exists>new. jobs (handleIncomingTransfer_settle st (p, key) pr now) = jobs st @ new"
    using Some n1 n2
    by (simp add: handleIncomingTransfer_settle_def Let_def st1_def)
  then show ?thesis using Some by auto
qed

lemma sendPaymentRequest_connected:
  "client st \<Longrightarrow>
   sendPaymentRequest st uid pk oid amt evId now =
     Inr (\<lparr>h_eventId = evId, waitForPayment = length (promises st),
            timeoutId = (evId, length (promises st))\<rparr>,
          st\<lparr>outbox := outbox st @ [(pk, amt, config_coinId st)],
             orderService := linkPaymentToOrder (orderService st) evId oid,
             promises := promises st @ [None],
             objects := objects st @
               [\<lparr>eventId = evId, pp_unicityId = uid, userPubkey = pk, pp_orderId = oid,
                  amount = amt, coinId = config_coinId st, pp_createdAt = now,
                  resolve = PromiseResolve (length (promises st))\<rparr>],
             pendingPayments := js_set evId (length (objects st)) (pendingPayments st)\<rparr>)"
  by (simp add: sendPaymentRequest_def new_promise_def Let_def)

text \<open>
  A registration under an event id that is not in the map puts the entry after all the
  entries that are there: the iteration order of the map is the order of registration.
\<close>

lemma registration_order:
  assumes "client st" and "map_of (pendingPayments st) evId = None"
    and "sendPaymentRequest st uid pk oid amt evId now = Inr (h, st')"
  shows "pendingPayments st' = pendingPayments st @ [(evId, length (objects st))]"
  using assms by (auto simp: sendPaymentRequest_connected js_set_fresh)

section \<open>Facts about runs\<close>

lemma settle_step_objects [simp]:
  "objects (handleIncomingTransfer_settle st m pr now) = objects st"
  by (cases m) (auto simp: handleIncomingTransfer_settle_def resolve_pending_def Let_def
      split: option.splits)

lemma settle_step_map:
  "pendingPayments (handleIncomingTransfer_settle st m pr now) = pendingPayments st
   \<or> (\<exists>k. pendingPayments (handleIncomingTransfer_settle st m pr now)
            = js_delete k (pendingPayments st))"
  by (cases m) (auto simp: handleIncomingTransfer_settle_def resolve_pending_def Let_def
      split: option.splits)

lemma timeoutFires_objects [simp]: "objects (timeoutFires st t) = objects st"
  by (cases t) (simp add: timeoutFires_def)

lemma timeoutFires_map:
  "pendingPayments (timeoutFires st t) = pendingPayments st
   \<or> (\<exists>k. pendingPayments (timeoutFires st t) = js_delete k (pendingPayments st))"
  by (cases t) (auto simp: timeoutFires_def)

lemma waitExisting_map [simp]:
  "pendingPayments (snd (waitForExistingPayment st evId)) = pendingPayments st"
  by (simp add: waitForExistingPayment_def new_promise_def Let_def split: option.splits)

lemma waitExisting_length [simp]:
  "length (objects (snd (waitForExistingPayment st evId))) = length (objects st)"
  by (simp add: waitForExistingPayment_def new_promise_def Let_def split: option.splits)

lemma map_update_same: "(map f xs)[i := f (xs ! i)] = map f xs"
  by (cases "i < length xs") (simp_all add: list_update_same_conv list_update_beyond)

lemma waitExisting_createdAt [simp]:
  "map pp_createdAt (objects (snd (waitForExistingPayment st evId))) = map pp_createdAt (objects st)"
  by (auto simp: waitForExistingPayment_def new_promise_def Let_def map_update map_update_same
           split: option.splits)

lemma map_ordered_delete:
  "map_ordered st \<Longrightarrow> pendingPayments st' = js_delete k (pendingPayments st)
     \<Longrightarrow> objects st' = objects st \<Longrightarrow> map_ordered st'"
  by (auto simp: map_ordered_def js_delete_def sorted_wrt_filter)

lemma map_ordered_same:
  "map_ordered st \<Longrightarrow> pendingPayments st' = pendingPayments st
     \<Longrightarrow> length (objects st') = length (objects st) \<Longrightarrow> map_ordered st'"
  by (auto simp: map_ordered_def)

lemma map_ordered_step:
  assumes "map_ordered st" and "fresh_id st a"
  shows "map_ordered (step st a)"
proof (cases a)
  case (Register uid pubkey oid amt evId now)
  show ?thesis
  proof (cases "client st")
    case False
    then show ?thesis using assms Register by (simp add: sendPaymentRequest_def)
  next
    case True
    then show ?thesis
      using assms Register
      by (auto simp: sendPaymentRequest_connected js_set_fresh map_ordered_def
          sorted_wrt_append less_Suc_eq)
  qed
next
  case (TimerFires t)
  then show ?thesis
    using assms(1) timeoutFires_map [of st t]
    by (auto intro: map_ordered_delete map_ordered_same)
next
  case (HandlerResumes m pr now)
  then show ?thesis
    using assms(1) settle_step_map [of st m pr now]
    by (auto intro: map_ordered_delete map_ordered_same)
next
  case (WaitExisting evId)
  then show ?thesis using assms(1) by (auto intro: map_ordered_same)
qed

lemma map_ordered_run:
  "map_ordered st \<Longrightarrow> fresh_ids st acts \<Longrightarrow> map_ordered (run st acts)"
  by (induction acts arbitrary: st) (auto simp: map_ordered_step)

lemma clock_step:
  assumes "sorted (map pp_createdAt (objects st))" and "on_time st a"
  shows "sorted (map pp_createdAt (objects (step st a)))"
proof (cases a)
  case (Register uid pubkey oid amt evId now)
  show ?thesis
  proof (cases "client st")
    case False
    then show ?thesis using assms Register by (simp add: sendPaymentRequest_def)
  next
    case True
    then show ?thesis
      using assms Register
      by (auto simp: sendPaymentRequest_connected sorted_append list_all_iff)
  qed
next
  case (TimerFires t)
  then show ?thesis using assms(1) by simp
next
  case (HandlerResumes m pr now)
  then show ?thesis using assms(1) by simp
next
  case (WaitExisting evId)
  then show ?thesis using assms(1) by simp
qed

lemma clock_run:
  "sorted (map pp_createdAt (objects st)) \<Longrightarrow> clock_monotone st acts
     \<Longrightarrow> sorted (map pp_createdAt (objects (run st acts)))"
  by (induction acts arbitrary: st) (auto simp: clock_step)

lemma findBySender_least:
  "sorted_wrt (\<lambda>a b. snd a < snd b) m \<Longrightarrow> (k, r) \<in> set m \<Longrightarrow> userPubkey (objs ! r) = s
     \<Longrightarrow> \<exists>k0 r0. findBySender objs m s = Some (r0, k0) \<and> (k0, r0) \<in> set m
            \<and> userPubkey (objs ! r0) = s \<and> r0 \<le> r"
proof (induction m)
  case Nil
  then show ?case by simp
next
  case (Cons e m)
  show ?case
  proof (cases "userPubkey (objs ! snd e) = s")
    case True
    have "snd e \<le> r" using Cons.prems(1,2) by force
    then show ?thesis using True by (cases e) auto
  next
    case False
    with Cons.prems have "(k, r) \<in> set m" by auto
    moreover have "sorted_wrt (\<lambda>a b. snd a < snd b) m" using Cons.prems(1) by simp
    ultimately obtain k0 r0 where "findBySender objs m s = Some (r0, k0)" "(k0, r0) \<in> set m"
      "userPubkey (objs ! r0) = s" "r0 \<le> r"
      using Cons.IH Cons.prems(3) by blast
    then show ?thesis using False by auto
  qed
qed

section \<open>The run, step by step\<close>

lemma clean_alice: "cleanUnicityId ''@alice'' = ''alice''" "cleanUnicityId ''alice'' = ''alice''"
  by (simp_all add: cleanUnicityId_def trim_def is_space_def startsWith_def)

lemma place_order_alice:
  "place_order service0 alice_mug (Some ''pkA'') ''0a1b2c3d-1111'' 1000 ''e1'' 1001
     = (PaymentRequired order1 ''e1'', placed)"
  by (simp add: place_order_def place_order_schema_def alice_mug_def clean_alice PRODUCTS_def
      mug_white_def UCT_def createOrder_def service0_def empty_orders_def sendPaymentRequest_def
      linkPaymentToOrder_def new_promise_def Let_def order1_def placed_def pending1_def)


lemma good_format:
  "startsWith ''{sourceToken:1}'' ''{''"
  "includes_str ''{sourceToken:1}'' ''sourceToken''"
  by code_simp+

lemma settle_good_transfer:
  "handleIncomingTransfer_settle st (p, key) good_transfer now =
     delete_pending key (resolve_pending p True
       (st\<lparr>orderService := snd (markAsPaid (orderService st) (pp_orderId (objects st ! p)) now)\<rparr>))"
  by (simp add: handleIncomingTransfer_settle_def good_transfer_def good_format
      del: includes_str.simps)

lemma late_waiter_eq:
  "waitForExistingPayment placed ''e1'' =
     (Some 1, placed\<lparr>objects := [pending1_late], promises := [None, None]\<rparr>)"
  by (simp add: waitForExistingPayment_def placed_def new_promise_def Let_def pending1_late_def
      pending1_def)

lemma late_match:
  "handleIncomingTransfer_match late_waiter transfer_reply_e1 = Some (0, ''e1'')"
  unfolding late_waiter_def late_waiter_eq
  by (simp add: handleIncomingTransfer_match_def matchPending_def transfer_reply_e1_def placed_def)

lemma expired_late_eq:
  "expired_late = placed\<lparr>pendingPayments := [], objects := [pending1_late],
                          promises := [Some False, None], jobs := [(0, False)]\<rparr>"
  unfolding expired_late_def late_waiter_def late_waiter_eq
  by (simp add: timeoutFires_def js_has_def delete_pending_def js_delete_def settle_def placed_def)

lemma settled_late_eq:
  "settled_late = placed\<lparr>pendingPayments := [], objects := [pending1_late],
       promises := [Some False, Some True], jobs := [(0, False), (1, True)],
       orderService := \<lparr>orders = [(''0a1b2c3d'', order1\<lparr>status := Paid, paidAt := Some 3000\<rparr>)],
                         paymentToOrder = [(''e1'', ''0a1b2c3d'')]\<rparr>\<rparr>"
  unfolding settled_late_def expired_late_eq settle_good_transfer
  by (simp add: resolve_pending_def delete_pending_def js_delete_def settle_def placed_def
      pending1_late_def pending1_def markAsPaid_def Let_def)

lemma send_ordered:
  "sendPaymentRequest ordered ''alice'' ''pkA'' ''0a1b2c3d'' 30000000000000000000 ''e1'' 1001
     = Inr (\<lparr>h_eventId = ''e1'', waitForPayment = 0, timeoutId = (''e1'', 0)\<rparr>, placed)"
  by (simp add: sendPaymentRequest_def ordered_def service0_def new_promise_def Let_def
      linkPaymentToOrder_def placed_def pending1_def)

lemma send2_ordered:
  "sendPaymentRequest2 ordered ''alice'' ''pkA'' ''0a1b2c3d'' 30000000000000000000 ''e1''
     = Inr (closure2, sent2)"
  by (simp add: sendPaymentRequest2_def ordered_def service0_def Let_def linkPaymentToOrder_def
      placed_def closure2_def sent2_def)

lemma paid1_eq:
  "paid1 = placed\<lparr>pendingPayments := [], promises := [Some True], jobs := [(0, True)],
       orderService := \<lparr>orders = [(''0a1b2c3d'', order1\<lparr>status := Paid, paidAt := Some 3000\<rparr>)],
                         paymentToOrder = [(''e1'', ''0a1b2c3d'')]\<rparr>\<rparr>"
proof -
  have m: "handleIncomingTransfer_match placed transfer_reply_e1 = Some (0, ''e1'')"
    by (simp add: handleIncomingTransfer_match_def matchPending_def transfer_reply_e1_def
        placed_def)
  show ?thesis
    unfolding paid1_def handleIncomingTransfer_def m option.case settle_good_transfer
    by (simp add: resolve_pending_def delete_pending_def js_delete_def settle_def placed_def
        pending1_def markAsPaid_def Let_def)
qed

lemma dropped2: "handleIncomingTransfer sent2 transfer_reply_e1 good_transfer 3000 = sent2"
proof -
  have "handleIncomingTransfer_match sent2 transfer_reply_e1 = None"
    by (simp add: handleIncomingTransfer_match_def matchPending_def transfer_reply_e1_def
        sent2_def placed_def)
  then show ?thesis by (simp add: handleIncomingTransfer_def)
qed

lemma waiting2_eq:
  "waitForPayment2 sent2 closure2 3500
     = ((0, (''e1'', 0)), placed\<lparr>objects := [pending1\<lparr>pp_createdAt := 3500\<rparr>]\<rparr>)"
  by (simp add: waitForPayment2_def sent2_def closure2_def placed_def new_promise_def Let_def
      pending1_def)

lemma run_busy:
  "pendingPayments (run ordered busy_run) = [(''e2'', 1), (''e3'', 2)]"
  "objects (run ordered busy_run) = [pending1, pending2, pending3]"
  "keyManager (run ordered busy_run)"
  by (simp_all add: busy_run_def ordered_def service0_def sendPaymentRequest_connected
      timeoutFires_def js_has_def settle_def delete_pending_def js_delete_def
      pending1_def pending2_def pending3_def)

lemma busy_admissible: "fresh_ids ordered busy_run" "clock_monotone ordered busy_run"
  by (simp_all add: busy_run_def ordered_def service0_def sendPaymentRequest_connected
      timeoutFires_def js_has_def settle_def delete_pending_def js_delete_def)

section \<open>Order store: validation of an order\<close>

text \<open>
  C8, as the claim states it, evaluated: \<open>createOrder\<close> accepts a quantity of 0 and a size
  for a product that declares none, and stores the order. The tool accepts a size for a
  mug as well.
\<close>

theorem createOrder_accepts_invalid:
  "createOrder empty_orders ''alice'' mug_white (Integral 0) (Some XL) ''9f8e7d6c-3333'' 1000
     = Inr (zero_order, \<lparr>orders = [(''9f8e7d6c'', zero_order)], paymentToOrder = []\<rparr>)
   \<and> sizes mug_white = None
   \<and> fst (place_order service0 mug_with_size (Some ''pkA'') ''0a1b2c3d-1111'' 1000 ''e1'' 1001)
       = PaymentRequired sized_mug_order ''e1''"
  by (simp add: createOrder_def empty_orders_def mug_white_def zero_order_def Let_def
      place_order_def place_order_schema_def mug_with_size_def size_enum_def clean_alice
      PRODUCTS_def UCT_def service0_def sendPaymentRequest_connected sized_mug_order_def)

lemma place_order_schema_Some:
  "place_order_schema inp = Some (q, sz) \<Longrightarrow>
     \<exists>n. q = Integral n \<and> 1 \<le> n \<and> n \<le> 10
        \<and> (in_quantity inp = None \<or> in_quantity inp = Some (Integral n))"
  by (auto simp: place_order_schema_def split: option.splits number.splits if_splits)

text \<open>
  C8, amended. The checks are those of the tool \<open>place_order\<close>, its schema and its handler,
  which run before \<open>createOrder\<close>. Whenever the tool stores an order or answers
  \<open>payment_required\<close>, the quantity is an integer from 1 to 10, the product is in the
  catalogue, and if the product declares sizes then a size is given and is one of them;
  the order it answers with carries that quantity and size. A quantity that is not an
  integer from 1 to 10 is refused and nothing changes; the replies \<open>InvalidParams\<close>,
  \<open>SizeRequired\<close> and \<open>SizeNotAvailable\<close> leave the state as it was.
\<close>

theorem place_order_validates:
  assumes run: "place_order st inp pubkey uuid now evId now' = (res, st')"
  shows "(orders (orderService st') \<noteq> orders (orderService st)
            \<or> (\<exists>ord e. res = PaymentRequired ord e)
          \<longrightarrow> (\<exists>n sz product. place_order_schema inp = Some (Integral n, sz) \<and> 1 \<le> n \<and> n \<le> 10
                 \<and> map_of PRODUCTS (product_id inp) = Some product
                 \<and> (\<forall>ss. sizes product = Some ss \<longrightarrow> (\<exists>z. sz = Some z \<and> z \<in> set ss))))
       \<and> (\<forall>ord e. res = PaymentRequired ord e \<longrightarrow>
             (\<exists>n. quantity ord = Integral n \<and> 1 \<le> n \<and> n \<le> 10)
             \<and> (\<forall>product ss. map_of PRODUCTS (product_id inp) = Some product
                    \<and> sizes product = Some ss \<longrightarrow> (\<exists>z \<in> set ss. order_size ord = Some z)))
       \<and> (in_quantity inp = Some NonIntegral
            \<or> (\<exists>n. in_quantity inp = Some (Integral n) \<and> (n < 1 \<or> 10 < n))
          \<longrightarrow> res = InvalidParams \<and> st' = st)
       \<and> (res = InvalidParams \<or> res = SizeRequired \<or> res = SizeNotAvailable \<longrightarrow> st' = st)"
proof (cases "place_order_schema inp")
  case None
  with run have "res = InvalidParams" "st' = st" by (simp_all add: place_order_def)
  then show ?thesis by simp
next
  case (Some v)
  obtain q sz where v: "v = (q, sz)" by (cases v)
  from Some v obtain n where n: "q = Integral n" "1 \<le> n" "n \<le> 10"
    and inq: "in_quantity inp = None \<or> in_quantity inp = Some (Integral n)"
    using place_order_schema_Some by blast
  have notbad: "\<not> (in_quantity inp = Some NonIntegral
            \<or> (\<exists>n. in_quantity inp = Some (Integral n) \<and> (n < 1 \<or> 10 < n)))"
    using inq n by auto
  have sch: "place_order_schema inp = Some (Integral n, sz)" using Some v n by simp
  show ?thesis
    using run notbad n(2,3)
    unfolding place_order_def sch
    by (auto simp: Let_def createOrder_def sendPaymentRequest_def new_promise_def
        linkPaymentToOrder_def
        split: option.splits if_splits sum.splits prod.splits)
qed

theorem place_order_validates_witness:
  "place_order service0 eleven_shirts (Some ''pkA'') ''0a1b2c3d-1111'' 1000 ''e1'' 1001
     = (InvalidParams, service0)
   \<and> place_order service0 alice_mug (Some ''pkA'') ''0a1b2c3d-1111'' 1000 ''e1'' 1001
     = (PaymentRequired order1 ''e1'', placed)
   \<and> (\<exists>n. quantity order1 = Integral n \<and> 1 \<le> n \<and> n \<le> 10)"
proof -
  obtain res st' where
    run: "place_order service0 eleven_shirts (Some ''pkA'') ''0a1b2c3d-1111'' 1000 ''e1'' 1001
            = (res, st')"
    by (cases "place_order service0 eleven_shirts (Some ''pkA'') ''0a1b2c3d-1111'' 1000 ''e1'' 1001")
  have "in_quantity eleven_shirts = Some (Integral 11)" by (simp add: eleven_shirts_def)
  then have bad: "in_quantity eleven_shirts = Some NonIntegral
      \<or> (\<exists>n. in_quantity eleven_shirts = Some (Integral n) \<and> (n < 1 \<or> 10 < n))"
    by simp
  from place_order_validates [OF run] bad have "res = InvalidParams \<and> st' = service0"
    by blast
  with run have a: "place_order service0 eleven_shirts (Some ''pkA'') ''0a1b2c3d-1111'' 1000
      ''e1'' 1001 = (InvalidParams, service0)"
    by simp
  from place_order_validates [OF place_order_alice]
  have b: "\<exists>n. quantity order1 = Integral n \<and> 1 \<le> n \<and> n \<le> 10" by blast
  show ?thesis using a b place_order_alice by simp
qed

section \<open>Correlation of an inbound transfer\<close>

text \<open>
  C4. For an event that the handler accepts as a token transfer: when the event carries a
  reply reference (a non-empty \<open>replyToEventId\<close>) that is a key of the map of pending
  payments, the handler selects the entry under that key, whatever the scan by sender key
  would select; the scan by sender key decides the match exactly when the event carries no
  reply reference or its reference is not a key of the map.
\<close>

theorem reply_reference_first:
  assumes "keyManager st" and "isTokenTransfer ev"
  shows "(replyToEventId ev = Some r \<and> r \<noteq> [] \<and> map_of (pendingPayments st) r = Some p
            \<longrightarrow> handleIncomingTransfer_match st ev = Some (p, r))
       \<and> (replyToEventId ev = None \<or> replyToEventId ev = Some []
            \<or> (\<exists>r'. replyToEventId ev = Some r' \<and> map_of (pendingPayments st) r' = None)
            \<longrightarrow> handleIncomingTransfer_match st ev =
                 (case findBySender (objects st) (pendingPayments st) (sender ev) of
                    None \<Rightarrow> None
                  | Some (q, key) \<Rightarrow> if key \<noteq> [] then Some (q, key) else None))"
  using assms
  by (auto simp: handleIncomingTransfer_match_def matchPending_def split: option.splits)

theorem reply_reference_first_witness:
  "findBySender (objects confirmed) (pendingPayments confirmed) (sender transfer_reply_e2)
      = Some (0, ''e1'')
   \<and> map_of (pendingPayments confirmed) ''e2'' = Some 1
   \<and> handleIncomingTransfer_match confirmed transfer_reply_e2 = Some (1, ''e2'')"
proof -
  have k: "keyManager confirmed" by (simp add: confirmed_def)
  have t: "isTokenTransfer transfer_reply_e2" by (simp add: transfer_reply_e2_def)
  have r: "replyToEventId transfer_reply_e2 = Some ''e2'' \<and> ''e2'' \<noteq> []
             \<and> map_of (pendingPayments confirmed) ''e2'' = Some 1"
    by (simp add: transfer_reply_e2_def confirmed_def)
  have m: "handleIncomingTransfer_match confirmed transfer_reply_e2 = Some (1, ''e2'')"
    using reply_reference_first [OF k t, of "''e2''" 1] r by blast
  have f: "findBySender (objects confirmed) (pendingPayments confirmed) (sender transfer_reply_e2)
             = Some (0, ''e1'')"
    by (simp add: confirmed_def transfer_reply_e2_def pending1_def)
  show ?thesis using m f r by simp
qed

text \<open>
  The scan by sender key selects the first entry, in the iteration order of the map, whose
  object carries the sender's key.
\<close>

lemma first_in_map_selected:
  assumes "keyManager st" and "isTokenTransfer ev"
    and "replyToEventId ev = None \<or> replyToEventId ev = Some []
           \<or> (\<exists>r. replyToEventId ev = Some r \<and> map_of (pendingPayments st) r = None)"
    and "i < length (pendingPayments st)"
    and "userPubkey (objects st ! snd (pendingPayments st ! i)) = sender ev"
    and "\<forall>j<i. userPubkey (objects st ! snd (pendingPayments st ! j)) \<noteq> sender ev"
    and "fst (pendingPayments st ! i) \<noteq> []"
  shows "handleIncomingTransfer_match st ev
           = Some (snd (pendingPayments st ! i), fst (pendingPayments st ! i))"
proof -
  have f: "findBySender (objects st) (pendingPayments st) (sender ev)
             = Some (snd (pendingPayments st ! i), fst (pendingPayments st ! i))"
    using assms(4,5,6) by (rule findBySender_first)
  from assms(3) have "(case replyToEventId ev of
               None \<Rightarrow> None
             | Some r \<Rightarrow>
                 if r \<noteq> [] then
                   (case map_of (pendingPayments st) r of
                      None \<Rightarrow> None
                    | Some p \<Rightarrow> Some (p, r))
                 else None) = None"
    by (auto split: option.splits)
  then show ?thesis
    using assms(1,2,7) f
    by (simp add: handleIncomingTransfer_match_def matchPending_def)
qed

text \<open>
  C5. For every run of the service from its construction in which the registrations get
  fresh event ids: when the reply reference does not decide and a pending entry carries
  the sender's key, the handler selects a pending entry with the sender's key that was
  registered no later than any other such entry (its object was created no later, the
  store growing by one object at each registration), and, if the clock does not go back,
  its \<open>createdAt\<close> is not after theirs.
\<close>

theorem fallback_selects_earliest:
  assumes start: "pendingPayments st0 = []" "objects st0 = []"
    and fresh: "fresh_ids st0 acts"
    and st: "st = run st0 acts"
    and ok: "keyManager st" "isTokenTransfer ev"
    and noreply: "replyToEventId ev = None \<or> replyToEventId ev = Some []
           \<or> (\<exists>x. replyToEventId ev = Some x \<and> map_of (pendingPayments st) x = None)"
    and live: "(k, r) \<in> set (pendingPayments st)" "userPubkey (objects st ! r) = sender ev"
  shows "\<exists>k0 r0. handleIncomingTransfer_match st ev = Some (r0, k0)
           \<and> (k0, r0) \<in> set (pendingPayments st)
           \<and> userPubkey (objects st ! r0) = sender ev
           \<and> r0 \<le> r
           \<and> (clock_monotone st0 acts
                \<longrightarrow> pp_createdAt (objects st ! r0) \<le> pp_createdAt (objects st ! r))"
proof -
  have "map_ordered st0" using start by (simp add: map_ordered_def)
  then have inv: "map_ordered st" unfolding st using fresh by (rule map_ordered_run)
  then obtain k0 r0 where f: "findBySender (objects st) (pendingPayments st) (sender ev) = Some (r0, k0)"
    and mem: "(k0, r0) \<in> set (pendingPayments st)"
    and key: "userPubkey (objects st ! r0) = sender ev" and le: "r0 \<le> r"
    using findBySender_least [OF _ live] unfolding map_ordered_def by blast
  have ne: "k0 \<noteq> []" and rlt: "r < length (objects st)"
    using inv mem live(1) unfolding map_ordered_def by force+
  from noreply have "(case replyToEventId ev of
               None \<Rightarrow> None
             | Some r \<Rightarrow>
                 if r \<noteq> [] then
                   (case map_of (pendingPayments st) r of
                      None \<Rightarrow> None
                    | Some p \<Rightarrow> Some (p, r))
                 else None) = None"
    by (auto split: option.splits)
  then have m: "handleIncomingTransfer_match st ev = Some (r0, k0)"
    using ok f ne by (simp add: handleIncomingTransfer_match_def matchPending_def)
  have c: "clock_monotone st0 acts
             \<longrightarrow> pp_createdAt (objects st ! r0) \<le> pp_createdAt (objects st ! r)"
  proof
    assume "clock_monotone st0 acts"
    moreover have "sorted (map pp_createdAt (objects st0))" using start by simp
    ultimately have "sorted (map pp_createdAt (objects st))"
      unfolding st by (rule clock_run [rotated])
    then have "map pp_createdAt (objects st) ! r0 \<le> map pp_createdAt (objects st) ! r"
      using le rlt by (simp add: sorted_iff_nth_mono del: nth_map)
    then show "pp_createdAt (objects st ! r0) \<le> pp_createdAt (objects st ! r)"
      using le rlt by simp
  qed
  show ?thesis using m mem key le c by blast
qed

theorem fallback_selects_earliest_witness:
  "fresh_ids ordered busy_run \<and> clock_monotone ordered busy_run
   \<and> pendingPayments (run ordered busy_run) = [(''e2'', 1), (''e3'', 2)]
   \<and> map userPubkey (objects (run ordered busy_run)) = [''pkA'', ''pkA'', ''pkA'']
   \<and> map pp_createdAt (objects (run ordered busy_run)) = [1001, 2000, 2500]
   \<and> handleIncomingTransfer_match (run ordered busy_run) transfer_no_reply = Some (1, ''e2'')"
proof -
  have s0: "pendingPayments ordered = []" "objects ordered = []"
    by (simp_all add: ordered_def service0_def)
  have t: "isTokenTransfer transfer_no_reply" by (simp add: transfer_no_reply_def)
  have n: "replyToEventId transfer_no_reply = None \<or> replyToEventId transfer_no_reply = Some []
      \<or> (\<exists>x. replyToEventId transfer_no_reply = Some x
              \<and> map_of (pendingPayments (run ordered busy_run)) x = None)"
    by (simp add: transfer_no_reply_def)
  have l: "(''e3'', 2) \<in> set (pendingPayments (run ordered busy_run))"
    "userPubkey (objects (run ordered busy_run) ! 2) = sender transfer_no_reply"
    by (simp_all add: run_busy pending3_def transfer_no_reply_def)
  obtain k0 r0 where
    m: "handleIncomingTransfer_match (run ordered busy_run) transfer_no_reply = Some (r0, k0)"
    and mem: "(k0, r0) \<in> set (pendingPayments (run ordered busy_run))" and le: "r0 \<le> 2"
    and c: "pp_createdAt (objects (run ordered busy_run) ! r0)
              \<le> pp_createdAt (objects (run ordered busy_run) ! 2)"
    using fallback_selects_earliest [OF s0 busy_admissible(1) refl run_busy(3) t n l]
      busy_admissible(2)
    by blast
  have "handleIncomingTransfer_match (run ordered busy_run) transfer_no_reply = Some (1, ''e2'')"
    by (simp add: handleIncomingTransfer_match_def matchPending_def run_busy
        transfer_no_reply_def pending1_def pending2_def)
  then show ?thesis
    using busy_admissible
    by (simp add: run_busy pending1_def pending2_def pending3_def)
qed

section \<open>Settlement\<close>

text \<open>
  C6. The second part of the handler and the timer callback are the two places that settle
  a promise. Each queues the notifications of the promises it settles and returns; in the
  state it returns, from which the event loop (\<open>runMicrotasks\<close>) delivers the queue to the
  waiters, the entry is no longer in the map and no event can be matched to its key.
  The handler removes the key on every path on which it calls \<open>pending.resolve\<close>, and the
  timer whenever it finds the key.
\<close>

theorem removal_precedes_notification:
  "(let st' = handleIncomingTransfer_settle st (p, key) pr now in
      (tokenJson pr \<noteq> None \<longrightarrow> map_of (pendingPayments st') key = None)
    \<and> (\<exists>new. fst (runMicrotasks st') = jobs st @ new
          \<and> (new \<noteq> [] \<longrightarrow> map_of (pendingPayments st') key = None
                \<and> (\<forall>ev q. handleIncomingTransfer_match st' ev \<noteq> Some (q, key)))))
 \<and> (let st' = timeoutFires st (evId, P) in
      (js_has (pendingPayments st) evId \<longrightarrow> map_of (pendingPayments st') evId = None)
    \<and> (\<exists>new. fst (runMicrotasks st') = jobs st @ new
          \<and> (new \<noteq> [] \<longrightarrow> map_of (pendingPayments st') evId = None
                \<and> (\<forall>ev q. handleIncomingTransfer_match st' ev \<noteq> Some (q, evId)))))"
proof -
  define s1 where "s1 = handleIncomingTransfer_settle st (p, key) pr now"
  define s2 where "s2 = timeoutFires st (evId, P)"
  have a: "tokenJson pr \<noteq> None \<Longrightarrow> map_of (pendingPayments s1) key = None"
    by (simp add: s1_def settle_step_pending map_of_js_delete)
  obtain n1 where n1: "jobs s1 = jobs st @ n1" "n1 \<noteq> [] \<longrightarrow> tokenJson pr \<noteq> None"
    using settle_step_jobs [of st p key pr now] by (auto simp: s1_def)
  have b: "n1 \<noteq> [] \<longrightarrow> map_of (pendingPayments s1) key = None
             \<and> (\<forall>ev q. handleIncomingTransfer_match s1 ev \<noteq> Some (q, key))"
    using n1(2) a no_match_for_absent_key [of s1 key] by blast
  have c: "js_has (pendingPayments st) evId \<Longrightarrow> map_of (pendingPayments s2) evId = None"
    by (simp add: s2_def timeoutFires_def map_of_js_delete)
  have d: "\<exists>new. jobs s2 = jobs st @ new \<and> (new \<noteq> [] \<longrightarrow> js_has (pendingPayments st) evId)"
  proof (cases "js_has (pendingPayments st) evId")
    case True
    obtain n where "jobs (settle P False (delete_pending evId st)) = jobs (delete_pending evId st) @ n"
      using settle_jobs by blast
    then show ?thesis using True by (simp add: s2_def timeoutFires_def)
  next
    case False
    then show ?thesis by (simp add: s2_def timeoutFires_def)
  qed
  then obtain n2 where n2: "jobs s2 = jobs st @ n2" "n2 \<noteq> [] \<longrightarrow> js_has (pendingPayments st) evId"
    by blast
  have e: "n2 \<noteq> [] \<longrightarrow> map_of (pendingPayments s2) evId = None
             \<and> (\<forall>ev q. handleIncomingTransfer_match s2 ev \<noteq> Some (q, evId))"
    using n2(2) c no_match_for_absent_key [of s2 evId] by blast
  show ?thesis
    unfolding Let_def runMicrotasks_def fst_conv s1_def [symmetric] s2_def [symmetric]
    using a n1(1) b c n2(1) e by blast
qed

theorem removal_precedes_notification_witness:
  "fst (runMicrotasks (handleIncomingTransfer_settle confirmed (1, ''e2'') good_transfer 3000))
     = [(1, True)]
   \<and> map_of (pendingPayments (handleIncomingTransfer_settle confirmed (1, ''e2'') good_transfer 3000))
        ''e2'' = None
   \<and> fst (runMicrotasks (timeoutFires confirmed (''e1'', 0))) = [(0, False)]
   \<and> map_of (pendingPayments (timeoutFires confirmed (''e1'', 0))) ''e1'' = None"
proof -
  have j1: "jobs (handleIncomingTransfer_settle confirmed (1, ''e2'') good_transfer 3000)
              = [(1, True)]"
    unfolding settle_good_transfer
    by (simp add: confirmed_def resolve_pending_def settle_def pending2_def)
  have j2: "jobs (timeoutFires confirmed (''e1'', 0)) = [(0, False)]"
    by (simp add: confirmed_def timeoutFires_def js_has_def settle_def delete_pending_def)
  have j0: "jobs confirmed = []" by (simp add: confirmed_def)
  from removal_precedes_notification [of confirmed 1 "''e2''" good_transfer 3000 "''e1''" 0]
  have "map_of (pendingPayments (handleIncomingTransfer_settle confirmed (1, ''e2'') good_transfer 3000))
          ''e2'' = None
      \<and> map_of (pendingPayments (timeoutFires confirmed (''e1'', 0))) ''e1'' = None"
    unfolding Let_def runMicrotasks_def fst_conv j1 j2 j0 by auto
  then show ?thesis using j1 j2 by (simp add: runMicrotasks_def)
qed

text \<open>
  What the timer does for the promise of the registration. An entry that is still in the
  map, with that promise not settled, when its timer fires: the promise settles \<open>false\<close>
  and the notification is queued, whoever awaits; the entry leaves the map; the orders are
  untouched. A later event whose reply reference is that event id, from a sender that no
  other entry carries, matches nothing and the handler returns without any change, so the
  order keeps its status.
\<close>

lemma timeout_settles_registration_promise:
  assumes live: "js_has (pendingPayments st) evId"
    and unsettled: "P < length (promises st)" "promises st ! P = None"
    and reply: "replyToEventId ev = Some evId"
    and others: "\<forall>e \<in> set (pendingPayments st).
                   fst e \<noteq> evId \<longrightarrow> userPubkey (objects st ! snd e) \<noteq> sender ev"
  shows "outcome (timeoutFires st (evId, P)) P = Some False
       \<and> (P, False) \<in> set (fst (runMicrotasks (timeoutFires st (evId, P))))
       \<and> map_of (pendingPayments (timeoutFires st (evId, P))) evId = None
       \<and> orderService (timeoutFires st (evId, P)) = orderService st
       \<and> handleIncomingTransfer_match (timeoutFires st (evId, P)) ev = None
       \<and> handleIncomingTransfer (timeoutFires st (evId, P)) ev pr now = timeoutFires st (evId, P)"
proof -
  define st' where "st' = timeoutFires st (evId, P)"
  have st': "st' = settle P False (delete_pending evId st)"
    using live by (simp add: st'_def timeoutFires_def)
  have a: "outcome st' P = Some False \<and> (P, False) \<in> set (jobs st')"
    unfolding st' using unsettled by (intro settle_unsettled) simp_all
  have pend: "pendingPayments st' = js_delete evId (pendingPayments st)"
    by (simp add: st')
  have b: "map_of (pendingPayments st') evId = None"
    by (simp add: pend map_of_js_delete)
  have c: "orderService st' = orderService st" by (simp add: st')
  have "\<forall>e \<in> set (pendingPayments st'). userPubkey (objects st' ! snd e) \<noteq> sender ev"
    using others by (auto simp: pend js_delete_def st')
  then have f: "findBySender (objects st') (pendingPayments st') (sender ev) = None"
    by (simp add: findBySender_None)
  have m: "matchPending st' ev = None"
    using reply b f by (simp add: matchPending_def)
  have d: "handleIncomingTransfer_match st' ev = None"
    using m by (simp add: handleIncomingTransfer_match_def)
  have e: "handleIncomingTransfer st' ev pr now = st'"
    using d by (simp add: handleIncomingTransfer_def)
  show ?thesis
    unfolding st'_def [symmetric] using a b c d e by (simp add: runMicrotasks_def)
qed

text \<open>
  C7. The claim is that at the timeout the waiters of the entry receive \<open>false\<close>.
  Evaluated on the run: a second waiter has attached to the entry through
  \<open>waitForExistingPayment\<close> (promise 1; the registration has promise 0) and no transfer
  arrives. The timer fires: promise 0 settles \<open>false\<close>, the entry leaves the map, and the
  only notification queued is that of promise 0. Promise 1 stays pending, and a later
  event that replies to the request is dropped, so nothing settles it afterwards.
\<close>

theorem timeout_skips_late_waiter:
  "fst (waitForExistingPayment placed ''e1'') = Some 1
   \<and> js_has (pendingPayments late_waiter) ''e1''
   \<and> outcome late_waiter 0 = None
   \<and> outcome late_waiter 1 = None
   \<and> outcome expired_late 0 = Some False
   \<and> outcome expired_late 1 = None
   \<and> fst (runMicrotasks expired_late) = [(0, False)]
   \<and> pendingPayments expired_late = []
   \<and> handleIncomingTransfer expired_late transfer_reply_e1 good_transfer 3000 = expired_late"
proof -
  have a: "fst (waitForExistingPayment placed ''e1'') = Some 1" by (simp add: late_waiter_eq)
  have b: "js_has (pendingPayments late_waiter) ''e1'' \<and> outcome late_waiter 0 = None
      \<and> outcome late_waiter 1 = None"
    unfolding late_waiter_def late_waiter_eq
    by (simp add: js_has_def outcome_def placed_def)
  have c: "outcome expired_late 0 = Some False \<and> outcome expired_late 1 = None
      \<and> fst (runMicrotasks expired_late) = [(0, False)] \<and> pendingPayments expired_late = []"
    unfolding expired_late_eq by (simp add: outcome_def runMicrotasks_def)
  have "handleIncomingTransfer_match expired_late transfer_reply_e1 = None"
    unfolding expired_late_eq
    by (simp add: handleIncomingTransfer_match_def matchPending_def transfer_reply_e1_def)
  then have d: "handleIncomingTransfer expired_late transfer_reply_e1 good_transfer 3000
      = expired_late"
    by (simp add: handleIncomingTransfer_def)
  show ?thesis using a b c d by simp
qed

theorem timeout_skips_late_waiter_witness:
  "outcome expired_late 1 \<noteq> Some False"
proof -
  have "outcome expired_late 1 = None" using timeout_skips_late_waiter by blast
  then show ?thesis by simp
qed

text \<open>
  C1. The claim is that the first settlement is the only one with an effect and that every
  waiter receives the same boolean. Evaluated on the run: a second waiter attaches to the
  entry through \<open>waitForExistingPayment\<close> (promise 1; the registration has promise 0); a
  transfer that replies to the request is matched; before its processing has answered, the
  timer fires, which settles promise 0 with \<open>false\<close>, removes the entry and leaves promise 1
  pending; then the handler resumes with a good transfer, marks the order as paid and
  settles promise 1 with \<open>true\<close>. The waiter of the registration has received \<open>false\<close>,
  the second waiter receives \<open>true\<close>, and the order is paid.
\<close>

theorem late_waiter_disagrees:
  "fst (waitForExistingPayment placed ''e1'') = Some 1
   \<and> handleIncomingTransfer_match late_waiter transfer_reply_e1 = Some (0, ''e1'')
   \<and> outcome expired_late 0 = Some False
   \<and> outcome expired_late 1 = None
   \<and> pendingPayments expired_late = []
   \<and> outcome settled_late 0 = Some False
   \<and> outcome settled_late 1 = Some True
   \<and> map_option status (getOrder (orderService settled_late) ''0a1b2c3d'') = Some Paid"
  unfolding late_waiter_eq late_match expired_late_eq settled_late_eq
  by (simp add: outcome_def getOrder_def)

theorem late_waiter_disagrees_witness:
  "outcome settled_late 0 \<noteq> outcome settled_late 1"
proof -
  have "outcome settled_late 0 = Some False" "outcome settled_late 1 = Some True"
    using late_waiter_disagrees by blast+
  then show ?thesis by simp
qed

section \<open>Asking for payment again\<close>




section \<open>The two versions of the service\<close>

text \<open>
  C10, as the claim states it, evaluated: the same request and the same transfer, which
  replies to the request and arrives after \<open>sendPaymentRequest\<close> has returned and before
  \<open>waitForPayment\<close> is called. The later version matches the transfer: the promise settles
  \<open>true\<close> and the order is paid. The earlier version has no entry yet and drops the
  transfer; the entry it registers afterwards runs into its timeout, the promise settles
  \<open>false\<close> and the order stays \<open>pending_payment\<close>.
\<close>

theorem versions_differ_before_wait:
  "sendPaymentRequest ordered ''alice'' ''pkA'' ''0a1b2c3d'' 30000000000000000000 ''e1'' 1001
     = Inr (\<lparr>h_eventId = ''e1'', waitForPayment = 0, timeoutId = (''e1'', 0)\<rparr>, placed)
   \<and> outcome paid1 0 = Some True
   \<and> map_option status (getOrder (orderService paid1) ''0a1b2c3d'') = Some Paid
   \<and> sendPaymentRequest2 ordered ''alice'' ''pkA'' ''0a1b2c3d'' 30000000000000000000 ''e1''
     = Inr (closure2, sent2)
   \<and> handleIncomingTransfer sent2 transfer_reply_e1 good_transfer 3000 = sent2
   \<and> fst (waitForPayment2 sent2 closure2 3500) = (0, (''e1'', 0))
   \<and> outcome waiting2 0 = None
   \<and> outcome (timeoutFires waiting2 (''e1'', 0)) 0 = Some False
   \<and> map_option status (getOrder (orderService (timeoutFires waiting2 (''e1'', 0))) ''0a1b2c3d'')
        = Some Pending_payment"
  unfolding send_ordered send2_ordered dropped2 paid1_eq waiting2_def waiting2_eq
  by (simp add: outcome_def getOrder_def placed_def timeoutFires_def js_has_def
      delete_pending_def js_delete_def settle_def order1_def)

text \<open>
  C10, amended. The two versions agree when \<open>waitForPayment\<close> is called as soon as
  \<open>sendPaymentRequest\<close> has returned: both fail when the client is not connected, and
  otherwise the earlier version's \<open>sendPaymentRequest\<close> followed by a call of its closure
  reaches the state of the later version's \<open>sendPaymentRequest\<close>, with the same promise
  and the same timer; handler and timer callback are the same code. Between the two calls
  the earlier version matches events as if no request had been sent, while the later
  version already matches an event that replies to the request.
\<close>

theorem registration_versions:
  "case sendPaymentRequest st uid pk oid amt evId now of
     Inl e \<Rightarrow> sendPaymentRequest2 st uid pk oid amt evId = Inl e
   | Inr (h, st1) \<Rightarrow>
       (\<exists>w st2. sendPaymentRequest2 st uid pk oid amt evId = Inr (w, st2)
          \<and> waitForPayment2 st2 w now = ((waitForPayment h, timeoutId h), st1)
          \<and> (\<forall>ev. handleIncomingTransfer_match st2 ev = handleIncomingTransfer_match st ev)
          \<and> (\<forall>ev. keyManager st \<and> isTokenTransfer ev \<and> replyToEventId ev = Some evId
                  \<and> evId \<noteq> []
                \<longrightarrow> handleIncomingTransfer_match st1 ev = Some (length (objects st), evId)))"
proof (cases "client st")
  case False
  then show ?thesis by (simp add: sendPaymentRequest_def sendPaymentRequest2_def)
next
  case True
  define st2 where "st2 = st\<lparr>outbox := outbox st @ [(pk, amt, config_coinId st)],
      orderService := linkPaymentToOrder (orderService st) evId oid\<rparr>"
  define w where "w = \<lparr>w_eventId = evId, w_unicityId = uid, w_userPubkey = pk,
      w_orderId = oid, w_amount = amt\<rparr>"
  obtain h st1 where s1: "sendPaymentRequest st uid pk oid amt evId now = Inr (h, st1)"
    using True sendPaymentRequest_connected by blast
  have s2: "sendPaymentRequest2 st uid pk oid amt evId = Inr (w, st2)"
    using True by (simp add: sendPaymentRequest2_def Let_def st2_def w_def)
  have wp: "waitForPayment2 st2 w now = ((waitForPayment h, timeoutId h), st1)"
    using s1 True
    by (auto simp: sendPaymentRequest_connected waitForPayment2_def new_promise_def Let_def
        st2_def w_def)
  have same: "\<forall>ev. handleIncomingTransfer_match st2 ev = handleIncomingTransfer_match st ev"
    by (intro allI match_cong) (simp_all add: st2_def)
  have reg: "map_of (pendingPayments st1) evId = Some (length (objects st))"
    "keyManager st1 = keyManager st"
    using s1 True by (auto simp: sendPaymentRequest_connected map_of_js_set)
  have hit: "\<forall>ev. keyManager st \<and> isTokenTransfer ev \<and> replyToEventId ev = Some evId
                  \<and> evId \<noteq> []
                \<longrightarrow> handleIncomingTransfer_match st1 ev = Some (length (objects st), evId)"
    using reg by (simp add: handleIncomingTransfer_match_def matchPending_def)
  show ?thesis
    unfolding s1 using s2 wp same hit by simp
qed

theorem registration_versions_witness:
  "sendPaymentRequest ordered ''alice'' ''pkA'' ''0a1b2c3d'' 30000000000000000000 ''e1'' 3500
     = Inr (\<lparr>h_eventId = ''e1'', waitForPayment = 0, timeoutId = (''e1'', 0)\<rparr>, waiting2)
   \<and> waitForPayment2 sent2 closure2 3500 = ((0, (''e1'', 0)), waiting2)
   \<and> handleIncomingTransfer_match sent2 transfer_reply_e1 = None
   \<and> handleIncomingTransfer_match waiting2 transfer_reply_e1 = Some (0, ''e1'')"
proof -
  have s1: "sendPaymentRequest ordered ''alice'' ''pkA'' ''0a1b2c3d'' 30000000000000000000 ''e1'' 3500
      = Inr (\<lparr>h_eventId = ''e1'', waitForPayment = 0, timeoutId = (''e1'', 0)\<rparr>, waiting2)"
    unfolding waiting2_def waiting2_eq
    by (simp add: sendPaymentRequest_def ordered_def service0_def new_promise_def Let_def
        linkPaymentToOrder_def placed_def pending1_def)
  have k: "keyManager ordered \<and> isTokenTransfer transfer_reply_e1
      \<and> replyToEventId transfer_reply_e1 = Some ''e1'' \<and> ''e1'' \<noteq> []"
    by (simp add: ordered_def service0_def transfer_reply_e1_def)
  have o: "length (objects ordered) = 0" by (simp add: ordered_def service0_def)
  have m0: "handleIncomingTransfer_match ordered transfer_reply_e1 = None"
    by (simp add: handleIncomingTransfer_match_def matchPending_def ordered_def service0_def
        transfer_reply_e1_def)
  from registration_versions [of ordered "''alice''" "''pkA''" "''0a1b2c3d''"
      30000000000000000000 "''e1''" 3500]
  have "waitForPayment2 sent2 closure2 3500 = ((0, (''e1'', 0)), waiting2)
      \<and> handleIncomingTransfer_match sent2 transfer_reply_e1
          = handleIncomingTransfer_match ordered transfer_reply_e1
      \<and> handleIncomingTransfer_match waiting2 transfer_reply_e1 = Some (0, ''e1'')"
    unfolding s1 send2_ordered using k o by auto
  then show ?thesis using s1 m0 by simp
qed

end
